theory Spec2Isabelle
  imports Main "HOL-Library.Sublist"
begin

section \<open>Data model (src/database/models.py)\<close>

text \<open>
  A calendar date as Python's \<open>datetime.date\<close> has it. The \<open>birthday\<close> and \<open>crated_at\<close>
  columns are \<open>DateTime\<close>; no function of the repository reads their time of day
  (\<open>date_part\<close> is only asked for month and day), so the date part is what is kept.
\<close>

record date =
  year :: nat
  month :: nat
  day :: nat

text \<open>
  Table \<open>contacts\<close>. Every column but the primary key is nullable (SQLAlchemy's default
  for \<open>Column\<close>), so it is an \<open>option\<close>, with \<open>None\<close> for SQL NULL. The selectors carry
  the prefix \<open>c_\<close> because \<open>id\<close> and \<open>email\<close> are also columns of \<open>users\<close>.
\<close>

record contact =
  c_id :: int
  c_first_name :: "string option"
  c_last_name :: "string option"
  c_email :: "string option"
  c_phone_number :: "string option"
  c_birthday :: "date option"
  c_additional_data :: "string option"
  c_user_id :: "int option"

text \<open>Table \<open>users\<close>; \<open>email\<close> and \<open>password\<close> are declared \<open>nullable=False\<close>.\<close>

record user =
  u_id :: int
  u_username :: "string option"
  u_email :: string
  u_password :: string
  u_created_at :: "date option"
  u_refresh_token :: "string option"
  u_confirmed :: bool
  u_avatar :: "string option"

text \<open>
  The database behind a \<open>Session\<close>: the rows of both tables and the sequence that
  generates \<open>contacts.id\<close>. The rows are listed in the order of their insertion. The
  order in which the database returns the rows of a query without \<open>ORDER BY\<close> is not
  promised by it (it lists a row after its update behind the others) and is not
  followed here: the results of this theory are about which rows a table or a result holds.
\<close>

record database =
  contacts :: "contact list"
  users :: "user list"
  contacts_id_seq :: int

datatype error =
  HTTPException nat string
  | AttributeError
  | IntegrityError
  | DataError
  | OverflowError

section \<open>Request bodies (src/schemas.py is not part of the sources)\<close>

text \<open>
  Modelled from the spec: the schema \<open>ContactCreate\<close> is missing. \<open>create_contact\<close> reads
  exactly these six attributes of it; the spec lists first and last name, email, phone
  number, optional birthday and optional additional data. Each is taken as optional, the
  most general typing. The selectors carry the prefix \<open>b_\<close> (of the body), since
  \<open>first_name\<close>, \<open>last_name\<close> and \<open>email\<close> are parameters of \<open>search_contacts\<close>.
\<close>

record ContactCreate =
  b_first_name :: "string option"
  b_last_name :: "string option"
  b_email :: "string option"
  b_phone_number :: "string option"
  b_birthday :: "date option"
  b_additional_data :: "string option"

text \<open>
  Modelled from the spec: the schema \<open>ContactUpdate\<close> is missing. \<open>update_contact\<close> only
  iterates \<open>body.dict().items()\<close>, so a body is the list of its (field, value) items,
  whichever of the six data columns the schema declares, in the schema's order. A
  dictionary has each key once: \<open>dict_keys_distinct\<close>.
\<close>

datatype item =
  Set_first_name "string option"
  | Set_last_name "string option"
  | Set_email "string option"
  | Set_phone_number "string option"
  | Set_birthday "date option"
  | Set_additional_data "string option"

type_synonym ContactUpdate = "item list"



fun setattr :: "contact \<Rightarrow> item \<Rightarrow> contact" where
  "setattr c (Set_first_name v) = c\<lparr>c_first_name := v\<rparr>"
| "setattr c (Set_last_name v) = c\<lparr>c_last_name := v\<rparr>"
| "setattr c (Set_email v) = c\<lparr>c_email := v\<rparr>"
| "setattr c (Set_phone_number v) = c\<lparr>c_phone_number := v\<rparr>"
| "setattr c (Set_birthday v) = c\<lparr>c_birthday := v\<rparr>"
| "setattr c (Set_additional_data v) = c\<lparr>c_additional_data := v\<rparr>"

section \<open>Constraints the database checks when a commit flushes a row\<close>

text \<open>
  \<open>contacts.email\<close> is declared \<open>unique=True\<close>: a written row is refused when another row
  holds the same non-NULL email (NULLs never collide).
\<close>

definition email_taken :: "contact \<Rightarrow> contact list \<Rightarrow> bool" where
  "email_taken c rows =
     (case c_email c of
        None \<Rightarrow> False
      | Some e \<Rightarrow> list_ex (\<lambda>r. c_id r \<noteq> c_id c \<and> c_email r = Some e) rows)"

text \<open>\<open>contacts.user_id\<close> is a foreign key to \<open>users.id\<close>; NULL refers to nothing.\<close>

definition user_exists :: "int option \<Rightarrow> user list \<Rightarrow> bool" where
  "user_exists uid rows =
     (case uid of None \<Rightarrow> True | Some i \<Rightarrow> list_ex (\<lambda>u. u_id u = i) rows)"

definition id_taken :: "int \<Rightarrow> contact list \<Rightarrow> bool" where
  "id_taken i rows = list_ex (\<lambda>r. c_id r = i) rows"

section \<open>Repository of contacts (src/repository/contacts.py)\<close>

text \<open>
  \<open>db.query(Contact).filter(Contact.id == contact_id, Contact.user_id == user.id)\<close>:
  a NULL \<open>user_id\<close> compares to nothing.
\<close>

definition id_and_owner :: "int \<Rightarrow> user \<Rightarrow> contact \<Rightarrow> bool" where
  "id_and_owner contact_id usr c = (c_id c = contact_id \<and> c_user_id c = Some (u_id usr))"

text \<open>
  \<open>offset\<close> and \<open>limit\<close> are unvalidated \<open>int\<close>s; the database refuses a negative one
  and one that does not fit its 64-bit integer.
\<close>

definition get_contacts :: "int \<Rightarrow> int \<Rightarrow> user \<Rightarrow> database \<Rightarrow> error + contact list" where
  "get_contacts skip limit usr db =
     (if skip < 0 \<or> limit < 0 \<or> 9223372036854775807 < skip \<or> 9223372036854775807 < limit
      then Inl DataError
      else Inr (take (nat limit) (drop (nat skip)
             (filter (\<lambda>c. c_user_id c = Some (u_id usr)) (contacts db)))))"

definition get_contact :: "int \<Rightarrow> user \<Rightarrow> database \<Rightarrow> contact option" where
  "get_contact contact_id usr db = find (id_and_owner contact_id usr) (contacts db)"

definition create_contact ::
  "ContactCreate \<Rightarrow> user \<Rightarrow> database \<Rightarrow> (error + contact) \<times> database" where
  "create_contact body usr db =
     (let new_id = contacts_id_seq db + 1;
          c = \<lparr>c_id = new_id,
               c_first_name = b_first_name body,
               c_last_name = b_last_name body,
               c_email = b_email body,
               c_phone_number = b_phone_number body,
               c_birthday = b_birthday body,
               c_additional_data = b_additional_data body,
               c_user_id = Some (u_id usr)\<rparr>;
          db1 = db\<lparr>contacts_id_seq := new_id\<rparr>
      in if 2147483647 < new_id then (Inl DataError, db)
         else if id_taken new_id (contacts db) \<or> email_taken c (contacts db)
            \<or> \<not> user_exists (c_user_id c) (users db)
         then (Inl IntegrityError, db1)
         else (Inr c, db1\<lparr>contacts := contacts db @ [c]\<rparr>))"

text \<open>
  \<open>db.delete(contact)\<close> followed by \<open>db.commit()\<close> issues
  \<open>DELETE FROM contacts WHERE id = ?\<close>; nothing refers to a contact, so it never fails.
\<close>

definition remove_contact :: "int \<Rightarrow> user \<Rightarrow> database \<Rightarrow> contact option \<times> database" where
  "remove_contact contact_id usr db =
     (case find (id_and_owner contact_id usr) (contacts db) of
        None \<Rightarrow> (None, db)
      | Some c \<Rightarrow>
          (Some c, db\<lparr>contacts := filter (\<lambda>r. c_id r \<noteq> c_id c) (contacts db)\<rparr>))"

text \<open>
  The loop \<open>for field, value in body.dict().items(): setattr(contact, field, value)\<close> is
  a left fold; the commit writes the row back by primary key and is refused, leaving the
  tables as they were, when the new email belongs to another row.
\<close>

definition update_contact ::
  "int \<Rightarrow> ContactUpdate \<Rightarrow> user \<Rightarrow> database \<Rightarrow> (error + contact option) \<times> database" where
  "update_contact contact_id body usr db =
     (case find (id_and_owner contact_id usr) (contacts db) of
        None \<Rightarrow> (Inr None, db)
      | Some c \<Rightarrow>
          (let c' = foldl setattr c body
           in if email_taken c' (contacts db) then (Inl IntegrityError, db)
              else (Inr (Some c'),
                    db\<lparr>contacts := map (\<lambda>r. if c_id r = c_id c then c' else r) (contacts db)\<rparr>)))"

subsection \<open>Dates: \<open>today + timedelta(days=7)\<close>\<close>

definition leap_year :: "nat \<Rightarrow> bool" where
  "leap_year y = (y mod 4 = 0 \<and> (y mod 400 = 0 \<or> y mod 100 \<noteq> 0))"

definition days_in_month :: "nat \<Rightarrow> nat \<Rightarrow> nat" where
  "days_in_month y m =
     (if m = 2 then (if leap_year y then 29 else 28)
      else if m = 4 \<or> m = 6 \<or> m = 9 \<or> m = 11 then 30
      else 31)"

definition next_day :: "date \<Rightarrow> date" where
  "next_day d =
     (if day d < days_in_month (year d) (month d) then d\<lparr>day := day d + 1\<rparr>
      else if month d < 12 then d\<lparr>month := month d + 1, day := 1\<rparr>
      else \<lparr>year = year d + 1, month = 1, day = 1\<rparr>)"

fun add_days :: "date \<Rightarrow> nat \<Rightarrow> date" where
  "add_days d 0 = d"
| "add_days d (Suc n) = add_days (next_day d) n"

text \<open>Python raises \<open>OverflowError\<close> when the sum leaves the years a \<open>date\<close> can hold.\<close>

definition date_plus_timedelta :: "date \<Rightarrow> nat \<Rightarrow> error + date" where
  "date_plus_timedelta d n =
     (let r = add_days d n in if 9999 < year r then Inl OverflowError else Inr r)"

subsection \<open>The database's \<open>ILIKE\<close>\<close>

text \<open>
  \<open>LIKE\<close> as the database matches it (pattern first, subject second): \<open>%\<close> stands for any
  run of characters, \<open>_\<close> for any one character, a backslash makes the next pattern
  character literal, every other character stands for itself. A pattern that ends in a
  lone backslash is refused by the database; \<open>search_contacts\<close> appends \<open>%\<close> to every
  pattern, so no pattern of this program ends so, and here such a pattern matches nothing.
\<close>

fun like_match :: "string \<Rightarrow> string \<Rightarrow> bool" where
  "like_match [] s = (s = [])"
| "like_match (p # ps) [] = (p = CHR ''%'' \<and> like_match ps [])"
| "like_match (p # ps) (ch # cs) =
     (if p = CHR ''%'' then like_match ps (ch # cs) \<or> like_match (p # ps) cs
      else if p = CHR ''_'' then like_match ps cs
      else if p = CHR 0x5C
        then (case ps of [] \<Rightarrow> False | q # qs \<Rightarrow> q = ch \<and> like_match qs cs)
      else p = ch \<and> like_match ps cs)"

text \<open>
  Case folding on the ASCII letters \<open>A\<close> to \<open>Z\<close>. The database folds a text by its locale,
  which also folds letters outside ASCII (and, under a UTF-8 encoding, reads several bytes
  as one character); on text that is ASCII throughout, \<open>lower\<close> on each character is that
  folding under the usual locales. The results on \<open>ilike\<close> are therefore stated for ASCII
  text only (\<open>ascii_text\<close>, \<open>ascii_contacts\<close>).
\<close>

definition lower :: "char \<Rightarrow> char" where
  "lower ch =
     (let n = (of_char ch :: nat) in if 65 \<le> n \<and> n \<le> 90 then char_of (n + 32) else ch)"

text \<open>
  \<open>column.ilike(pattern)\<close> in a \<open>WHERE\<close> clause: both sides are folded to lower case and
  matched; a NULL column gives NULL, which selects no row.
\<close>

definition ilike :: "string option \<Rightarrow> string \<Rightarrow> bool" where
  "ilike col pattern =
     (case col of None \<Rightarrow> False | Some s \<Rightarrow> like_match (map lower pattern) (map lower s))"

text \<open>
  \<open>Contact.user_id == User.id\<close> names the class \<open>User\<close>, not the caller: the query joins
  \<open>contacts\<close> with \<open>users\<close>, and a contact is kept when some row of \<open>users\<close> has its
  \<open>user_id\<close>. The result lists each contact once. The query strings are sent as bound
  parameters; the driver refuses a parameter that holds the character NUL, so this
  definition is the query for NUL-free strings (\<open>ascii_text\<close> below excludes NUL).
\<close>

definition joins_a_user :: "database \<Rightarrow> contact \<Rightarrow> bool" where
  "joins_a_user db c = list_ex (\<lambda>u. c_user_id c = Some (u_id u)) (users db)"

definition search_contacts :: "database \<Rightarrow> string \<Rightarrow> string \<Rightarrow> string \<Rightarrow> contact list" where
  "search_contacts db first_name last_name email =
     filter (\<lambda>c. ilike (c_first_name c) (''%'' @ first_name @ ''%'')
               \<and> ilike (c_last_name c) (''%'' @ last_name @ ''%'')
               \<and> ilike (c_email c) (''%'' @ email @ ''%'')
               \<and> joins_a_user db c)
       (contacts db)"

text \<open>
  \<open>today\<close> is \<open>datetime.now().date()\<close>, an input here. \<open>Contact.birthday is not None\<close> is
  evaluated by Python on the column object and is the constant \<open>True\<close>; a NULL birthday
  has no \<open>date_part\<close> and selects no row.
\<close>

definition get_contacts_upcoming_birthdays :: "date \<Rightarrow> database \<Rightarrow> error + contact list" where
  "get_contacts_upcoming_birthdays today db =
     (case date_plus_timedelta today 7 of
        Inl e \<Rightarrow> Inl e
      | Inr next_week \<Rightarrow>
          Inr (filter
                (\<lambda>c. True
                   \<and> (case c_birthday c of
                        None \<Rightarrow> False
                      | Some b \<Rightarrow> month b = month today
                                  \<and> day today \<le> day b
                                  \<and> day b \<le> day next_week)
                   \<and> joins_a_user db c)
                (contacts db)))"

section \<open>Repository of users (src/repository/users.py)\<close>

definition get_user_by_email :: "string \<Rightarrow> database \<Rightarrow> user option" where
  "get_user_by_email email db = find (\<lambda>u. u_email u = email) (users db)"

text \<open>
  \<open>user.refresh_token = token; db.commit()\<close> writes the column of the row with the
  user's primary key.
\<close>

definition update_token :: "user \<Rightarrow> string option \<Rightarrow> database \<Rightarrow> database" where
  "update_token usr token db =
     db\<lparr>users := map (\<lambda>r. if u_id r = u_id usr then r\<lparr>u_refresh_token := token\<rparr> else r)
                    (users db)\<rparr>"

section \<open>Authentication routes (src/routes/auth.py)\<close>

text \<open>
  Modelled from the spec: \<open>src/services/auth.py\<close> is missing. The routes use the service
  through these operations only, so they are parameters: password verification, the two
  token issuers (given the subject email), the decoder of a refresh token (the email it
  carries, or the error it raises) and the dependency \<open>get_current_user\<close> (the user
  behind the request's bearer token, or the error it raises).
\<close>

record auth_service =
  verify_password :: "string \<Rightarrow> string \<Rightarrow> bool"
  create_access_token :: "string \<Rightarrow> string"
  create_refresh_token :: "string \<Rightarrow> string"
  decode_refresh_token :: "string \<Rightarrow> error + string"
  get_current_user :: "string option \<Rightarrow> database \<Rightarrow> error + user"

text \<open>The response body of \<open>login\<close> and \<open>refresh_token\<close> (the keys of the returned dict).\<close>

record TokenModel =
  tm_access_token :: string
  tm_refresh_token :: string
  tm_token_type :: string


text \<open>
  \<open>user.refresh_token\<close> on the \<open>None\<close> that \<open>get_user_by_email\<close> returns for an unknown
  email raises \<open>AttributeError\<close>.
\<close>

definition refresh_token ::
  "auth_service \<Rightarrow> string \<Rightarrow> database \<Rightarrow> (error + TokenModel) \<times> database" where
  "refresh_token svc token db =
     (case decode_refresh_token svc token of
        Inl e \<Rightarrow> (Inl e, db)
      | Inr email \<Rightarrow>
          (case get_user_by_email email db of
             None \<Rightarrow> (Inl AttributeError, db)
           | Some usr \<Rightarrow>
               if u_refresh_token usr \<noteq> Some token
               then (Inl (HTTPException 401 ''Invalid refresh token''),
                     update_token usr None db)
               else
                 (let access = create_access_token svc email;
                      refresh = create_refresh_token svc email
                  in (Inr \<lparr>tm_access_token = access, tm_refresh_token = refresh,
                           tm_token_type = ''bearer''\<rparr>,
                      update_token usr (Some refresh) db))))"

text \<open>
  A background task: \<open>send_email(email, username, base_url)\<close>. \<open>request_email\<close> reads
  \<open>user.confirmed\<close> before it tests \<open>if user\<close>; on \<open>None\<close> the read raises.
\<close>

datatype task = Send_email string "string option" string

definition request_email ::
  "string \<Rightarrow> string \<Rightarrow> task list \<Rightarrow> database \<Rightarrow> (error + string) \<times> task list" where
  "request_email email base_url background_tasks db =
     (case get_user_by_email email db of
        None \<Rightarrow> (Inl AttributeError, background_tasks)
      | Some usr \<Rightarrow>
          if u_confirmed usr then (Inr ''Your email is already confirmed'', background_tasks)
          else (Inr ''Check your email for confirmation.'',
                background_tasks @ [Send_email (u_email usr) (u_username usr) base_url]))"

section \<open>Contact routes (src/routes/contacts.py)\<close>

text \<open>
  A handler that declares \<open>current_user: User = Depends(auth_service.get_current_user)\<close>
  gets the request's credentials resolved before its body runs, and the dependency's
  error is the response. The two last handlers declare no such parameter. The routes
  carry the suffix \<open>_api\<close> where the repository function has the same name. The rate
  limiter of the first three routes is outside this model.
\<close>

definition read_contacts ::
  "auth_service \<Rightarrow> string option \<Rightarrow> int \<Rightarrow> int \<Rightarrow> database \<Rightarrow> error + contact list" where
  "read_contacts svc credentials skip limit db =
     (case get_current_user svc credentials db of
        Inl e \<Rightarrow> Inl e
      | Inr current_user \<Rightarrow> get_contacts skip limit current_user db)"

definition read_contact ::
  "auth_service \<Rightarrow> string option \<Rightarrow> int \<Rightarrow> database \<Rightarrow> error + contact" where
  "read_contact svc credentials contact_id db =
     (case get_current_user svc credentials db of
        Inl e \<Rightarrow> Inl e
      | Inr current_user \<Rightarrow>
          (case get_contact contact_id current_user db of
             None \<Rightarrow> Inl (HTTPException 404 ''Contact not found'')
           | Some c \<Rightarrow> Inr c))"

definition create_contact_api ::
  "auth_service \<Rightarrow> string option \<Rightarrow> ContactCreate \<Rightarrow> database \<Rightarrow> (error + contact) \<times> database" where
  "create_contact_api svc credentials body db =
     (case get_current_user svc credentials db of
        Inl e \<Rightarrow> (Inl e, db)
      | Inr current_user \<Rightarrow> create_contact body current_user db)"

definition update_contact_api ::
  "auth_service \<Rightarrow> string option \<Rightarrow> ContactUpdate \<Rightarrow> int \<Rightarrow> database
     \<Rightarrow> (error + contact) \<times> database" where
  "update_contact_api svc credentials body contact_id db =
     (case get_current_user svc credentials db of
        Inl e \<Rightarrow> (Inl e, db)
      | Inr current_user \<Rightarrow>
          (case update_contact contact_id body current_user db of
             (Inl e, db') \<Rightarrow> (Inl e, db')
           | (Inr None, db') \<Rightarrow> (Inl (HTTPException 404 ''Contact not found''), db')
           | (Inr (Some c), db') \<Rightarrow> (Inr c, db')))"

definition remove_contact_api ::
  "auth_service \<Rightarrow> string option \<Rightarrow> int \<Rightarrow> database \<Rightarrow> (error + contact) \<times> database" where
  "remove_contact_api svc credentials contact_id db =
     (case get_current_user svc credentials db of
        Inl e \<Rightarrow> (Inl e, db)
      | Inr current_user \<Rightarrow>
          (case remove_contact contact_id current_user db of
             (None, db') \<Rightarrow> (Inl (HTTPException 404 ''Contact not found''), db')
           | (Some c, db') \<Rightarrow> (Inr c, db')))"

definition search_contacts_api :: "string \<Rightarrow> string \<Rightarrow> string \<Rightarrow> database \<Rightarrow> contact list" where
  "search_contacts_api first_name last_name email db =
     search_contacts db first_name last_name email"

definition get_upcoming_birthdays :: "date \<Rightarrow> database \<Rightarrow> error + contact list" where
  "get_upcoming_birthdays today db = get_contacts_upcoming_birthdays today db"

section \<open>What the specification says, in its own words\<close>


text \<open>
  The spec's search: a column case-insensitively contains the query as a substring. Two
  characters are the same up to case when they are equal or one is a capital ASCII letter
  and the other its small letter, 32 code points above; no folding function is used. A
  NULL column contains nothing.
\<close>

definition capital :: "char \<Rightarrow> bool" where
  "capital ch = (65 \<le> (of_char ch :: nat) \<and> (of_char ch :: nat) \<le> 90)"

definition same_letter :: "char \<Rightarrow> char \<Rightarrow> bool" where
  "same_letter a b =
     (a = b
      \<or> (capital a \<and> (of_char b :: nat) = of_char a + 32)
      \<or> (capital b \<and> (of_char a :: nat) = of_char b + 32))"

fun starts_with_ci :: "string \<Rightarrow> string \<Rightarrow> bool" where
  "starts_with_ci [] s = True"
| "starts_with_ci (a # q) [] = False"
| "starts_with_ci (a # q) (b # s) = (same_letter a b \<and> starts_with_ci q s)"

fun has_substring_ci :: "string \<Rightarrow> string \<Rightarrow> bool" where
  "has_substring_ci q [] = (q = [])"
| "has_substring_ci q (b # s) = (starts_with_ci q (b # s) \<or> has_substring_ci q s)"

definition contains_ci :: "string option \<Rightarrow> string \<Rightarrow> bool" where
  "contains_ci col q = (case col of None \<Rightarrow> False | Some s \<Rightarrow> has_substring_ci q s)"

definition spec_search :: "database \<Rightarrow> string \<Rightarrow> string \<Rightarrow> string \<Rightarrow> contact list" where
  "spec_search db first_name last_name email =
     filter (\<lambda>c. contains_ci (c_first_name c) first_name
               \<and> contains_ci (c_last_name c) last_name
               \<and> contains_ci (c_email c) email)
       (contacts db)"

text \<open>The characters \<open>LIKE\<close> reads as more than themselves.\<close>

definition wildcard_free :: "string \<Rightarrow> bool" where
  "wildcard_free q = (CHR ''%'' \<notin> set q \<and> CHR ''_'' \<notin> set q \<and> CHR 0x5C \<notin> set q)"

text \<open>
  ASCII text without NUL, and a database whose searched columns hold such text (or NULL):
  the text on which \<open>ilike\<close> above is the database's \<open>ILIKE\<close> and the driver accepts
  the query.
\<close>

definition ascii_text :: "string \<Rightarrow> bool" where
  "ascii_text s = list_all (\<lambda>ch. 0 < (of_char ch :: nat) \<and> (of_char ch :: nat) < 128) s"

definition ascii_column :: "string option \<Rightarrow> bool" where
  "ascii_column col = (case col of None \<Rightarrow> True | Some s \<Rightarrow> ascii_text s)"

definition ascii_contacts :: "database \<Rightarrow> bool" where
  "ascii_contacts db =
     list_all (\<lambda>c. ascii_column (c_first_name c) \<and> ascii_column (c_last_name c)
                  \<and> ascii_column (c_email c))
       (contacts db)"

text \<open>
  The spec's birthday window: same month as today, day of the month within
  \<open>[today's day, today's day + 7]\<close>.
\<close>

definition spec_upcoming :: "date \<Rightarrow> database \<Rightarrow> contact list" where
  "spec_upcoming today db =
     filter (\<lambda>c. case c_birthday c of
                   None \<Rightarrow> False
                 | Some b \<Rightarrow> month b = month today \<and> day today \<le> day b \<and> day b \<le> day today + 7)
       (contacts db)"

section \<open>Example data\<close>

definition ann :: user where
  "ann = \<lparr>u_id = 1, u_username = Some ''ann'', u_email = ''ann@example.com'',
          u_password = ''hash-of-secret'', u_created_at = None,
          u_refresh_token = Some ''refresh-1'', u_confirmed = True, u_avatar = None\<rparr>"

definition bob :: user where
  "bob = \<lparr>u_id = 2, u_username = Some ''bob'', u_email = ''bob@example.com'',
          u_password = ''hash-of-hunter2'', u_created_at = None,
          u_refresh_token = None, u_confirmed = False, u_avatar = None\<rparr>"

definition lee_body :: ContactCreate where
  "lee_body = \<lparr>b_first_name = Some ''Ann'', b_last_name = Some ''Lee'',
               b_email = Some ''a@x.com'', b_phone_number = Some ''555'',
               b_birthday = Some \<lparr>year = 1990, month = 1, day = 29\<rparr>,
               b_additional_data = None\<rparr>"

definition lee :: contact where
  "lee = \<lparr>c_id = 1, c_first_name = Some ''Ann'', c_last_name = Some ''Lee'',
          c_email = Some ''a@x.com'', c_phone_number = Some ''555'',
          c_birthday = Some \<lparr>year = 1990, month = 1, day = 29\<rparr>,
          c_additional_data = None, c_user_id = Some 1\<rparr>"

definition ray :: contact where
  "ray = \<lparr>c_id = 2, c_first_name = Some ''Bo'', c_last_name = Some ''Ray'',
          c_email = Some ''b@x.com'', c_phone_number = Some ''777'',
          c_birthday = None, c_additional_data = Some ''met at work'', c_user_id = Some 1\<rparr>"

definition db_users :: database where
  "db_users = \<lparr>contacts = [], users = [ann, bob], contacts_id_seq = 0\<rparr>"

definition db_lee :: database where
  "db_lee = \<lparr>contacts = [lee], users = [ann, bob], contacts_id_seq = 1\<rparr>"

definition db_two :: database where
  "db_two = \<lparr>contacts = [lee, ray], users = [ann, bob], contacts_id_seq = 2\<rparr>"

text \<open>
  An authentication service for the examples: the bearer token is the email itself, a
  password verifies against the stored text, and a request without credentials is
  refused with 401.
\<close>

definition plain_service :: auth_service where
  "plain_service =
     \<lparr>verify_password = (\<lambda>plain hashed. hashed = ''hash-of-'' @ plain),
      create_access_token = (\<lambda>email. ''access:'' @ email),
      create_refresh_token = (\<lambda>email. ''refresh:'' @ email),
      decode_refresh_token =
        (\<lambda>token. if take 8 token = ''refresh:'' then Inr (drop 8 token)
                  else if take 8 token = ''refresh-'' then Inr ''ann@example.com''
                  else Inl (HTTPException 401 ''Could not validate credentials'')),
      get_current_user =
        (\<lambda>credentials db.
           case credentials of
             None \<Rightarrow> Inl (HTTPException 401 ''Not authenticated'')
           | Some token \<Rightarrow>
               (case get_user_by_email token db of
                  None \<Rightarrow> Inl (HTTPException 401 ''Could not validate credentials'')
                | Some usr \<Rightarrow> Inr usr))\<rparr>"

section \<open>Lemmas on rows and primary keys\<close>

lemma same_id_same_row:
  assumes "distinct (map c_id rows)" "c \<in> set rows" "r \<in> set rows" "c_id r = c_id c"
  shows "r = c"
  using assms by (meson distinct_map inj_on_def)

lemma find_other_owner:
  assumes "distinct (map c_id rows)" "c \<in> set rows" "c_user_id c = Some a" "a \<noteq> u_id B"
  shows "find (id_and_owner (c_id c) B) rows = None"
proof -
  have "\<not> id_and_owner (c_id c) B r" if "r \<in> set rows" for r
  proof
    assume h: "id_and_owner (c_id c) B r"
    then have "c_id r = c_id c" by (simp add: id_and_owner_def)
    then have "r = c" using same_id_same_row [OF assms(1,2) that] by simp
    with h assms(3,4) show False by (simp add: id_and_owner_def)
  qed
  then show ?thesis by (simp add: find_None_iff)
qed

lemma find_own:
  assumes "distinct (map c_id rows)" "c \<in> set rows" "id_and_owner i usr c"
  shows "find (id_and_owner i usr) rows = Some c"
proof (cases "find (id_and_owner i usr) rows")
  case None
  with assms(2,3) show ?thesis by (simp add: find_None_iff)
next
  case (Some r)
  then have "r \<in> set rows" and "id_and_owner i usr r"
    by (auto simp: find_Some_iff)
  with assms have "r = c"
    using same_id_same_row [of rows c r] by (simp add: id_and_owner_def)
  with Some show ?thesis by simp
qed

lemma filter_other_ids:
  assumes "distinct (map c_id rows)" "c \<in> set rows"
  shows "filter (\<lambda>r. c_id r \<noteq> c_id c) rows = remove1 c rows"
proof -
  have d: "distinct rows" using assms(1) by (simp add: distinct_map)
  have "filter (\<lambda>r. c_id r \<noteq> c_id c) rows = filter (\<lambda>r. r \<noteq> c) rows"
    using same_id_same_row [OF assms] by (intro filter_cong) auto
  also have "\<dots> = removeAll c rows" by (induction rows) auto
  also have "\<dots> = remove1 c rows" using d by (simp add: distinct_remove1_removeAll)
  finally show ?thesis .
qed

lemma find_map_preserved:
  "(\<And>x. P (f x) = P x) \<Longrightarrow> find P (map f xs) = map_option f (find P xs)"
  by (induction xs) simp_all

section \<open>Lemmas on the update loop\<close>









lemma create_contact_owner:
  assumes "create_contact body usr db = (Inr c, db')"
  shows "c \<in> set (contacts db') \<and> c_user_id c = Some (u_id usr)"
  using assms by (auto simp: create_contact_def Let_def split: if_splits)

lemma create_contact_keeps_ids_distinct:
  assumes "create_contact body usr db = (r, db')" "distinct (map c_id (contacts db))"
  shows "distinct (map c_id (contacts db'))"
  using assms by (fastforce simp: create_contact_def Let_def id_taken_def list_ex_iff split: if_splits)

section \<open>Owner scoping of the repository of contacts\<close>

text \<open>
  Claim C1. A contact created under owner A (its \<open>user_id\<close> is A's id, as
  \<open>create_contact\<close> sets it and \<open>update_contact\<close> never changes it) is invisible to a
  distinct owner B: queried with the contact's id as B, \<open>get_contact\<close>,
  \<open>update_contact\<close> and \<open>remove_contact\<close> each return the not-found sentinel and leave
  the database, hence the contact, as it was. \<open>contacts.id\<close> is the primary key.
\<close>

theorem owner_isolation:
  assumes "distinct (map c_id (contacts db))"
    and "c \<in> set (contacts db)"
    and "c_user_id c = Some (u_id A)"
    and "u_id A \<noteq> u_id B"
  shows "get_contact (c_id c) B db = None
       \<and> update_contact (c_id c) body B db = (Inr None, db)
       \<and> remove_contact (c_id c) B db = (None, db)"
  using find_other_owner [OF assms]
  by (simp add: get_contact_def update_contact_def remove_contact_def)

theorem owner_isolation_witness:
  "create_contact lee_body ann db_users = (Inr lee, db_lee)
   \<and> get_contact 1 ann db_lee = Some lee
   \<and> get_contact 1 bob db_lee = None
   \<and> update_contact 1 [Set_first_name (Some ''Eve''), Set_email None] bob db_lee = (Inr None, db_lee)
   \<and> remove_contact 1 bob db_lee = (None, db_lee)"
proof -
  have made: "create_contact lee_body ann db_users = (Inr lee, db_lee)"
    by (simp add: create_contact_def Let_def lee_body_def ann_def bob_def db_users_def
        db_lee_def lee_def id_taken_def email_taken_def user_exists_def)
  have own: "get_contact 1 ann db_lee = Some lee"
    by (simp add: get_contact_def db_lee_def lee_def ann_def id_and_owner_def)
  have h1: "distinct (map c_id (contacts db_lee))" by (simp add: db_lee_def)
  have h2: "lee \<in> set (contacts db_lee)" by (simp add: db_lee_def)
  have h3: "c_user_id lee = Some (u_id ann)" by (simp add: lee_def ann_def)
  have h4: "u_id ann \<noteq> u_id bob" by (simp add: ann_def bob_def)
  have i: "c_id lee = 1" by (simp add: lee_def)
  show ?thesis
    using made own owner_isolation [OF h1 h2 h3 h4, of "[Set_first_name (Some ''Eve''), Set_email None]"]
    by (simp add: i)
qed

text \<open>
  Claim C8. When no contact of the caller has the given id, \<open>update_contact\<close> returns
  the not-found sentinel \<open>None\<close> and writes nothing: the database after the call is the
  database before it.
\<close>

theorem update_contact_absent:
  assumes "\<forall>c \<in> set (contacts db). c_id c = contact_id \<longrightarrow> c_user_id c \<noteq> Some (u_id usr)"
  shows "update_contact contact_id body usr db = (Inr None, db)"
proof -
  have "find (id_and_owner contact_id usr) (contacts db) = None"
    using assms by (auto simp: find_None_iff id_and_owner_def)
  then show ?thesis by (simp add: update_contact_def)
qed

theorem update_contact_absent_witness:
  "update_contact 7 [Set_last_name (Some ''Li'')] ann db_two = (Inr None, db_two)
   \<and> update_contact 2 [Set_last_name (Some ''Li'')] bob db_two = (Inr None, db_two)"
proof -
  have a: "\<forall>c \<in> set (contacts db_two). c_id c = 7 \<longrightarrow> c_user_id c \<noteq> Some (u_id ann)"
    by (simp add: db_two_def lee_def ray_def)
  have b: "\<forall>c \<in> set (contacts db_two). c_id c = 2 \<longrightarrow> c_user_id c \<noteq> Some (u_id bob)"
    by (simp add: db_two_def lee_def ray_def bob_def)
  show ?thesis
    using update_contact_absent [OF a] update_contact_absent [OF b] by simp
qed

text \<open>
  Claim C9. When no contact of the caller has the given id, \<open>remove_contact\<close> returns the
  not-found sentinel and writes nothing. When the caller has the contact, the call returns
  it and removes exactly that row: the other contacts stay, in their order, one row fewer,
  and the rows of \<open>users\<close> and the id sequence are untouched.
\<close>

theorem remove_contact_frame:
  assumes pk: "distinct (map c_id (contacts db))"
  shows "((\<forall>c \<in> set (contacts db). c_id c = contact_id \<longrightarrow> c_user_id c \<noteq> Some (u_id usr))
            \<longrightarrow> remove_contact contact_id usr db = (None, db))
       \<and> (\<forall>c \<in> set (contacts db). c_id c = contact_id \<and> c_user_id c = Some (u_id usr) \<longrightarrow>
             remove_contact contact_id usr db = (Some c, db\<lparr>contacts := remove1 c (contacts db)\<rparr>)
             \<and> set (remove1 c (contacts db)) = set (contacts db) - {c}
             \<and> length (remove1 c (contacts db)) + 1 = length (contacts db))"
proof (intro conjI impI ballI)
  assume "\<forall>c \<in> set (contacts db). c_id c = contact_id \<longrightarrow> c_user_id c \<noteq> Some (u_id usr)"
  then have "find (id_and_owner contact_id usr) (contacts db) = None"
    by (auto simp: find_None_iff id_and_owner_def)
  then show "remove_contact contact_id usr db = (None, db)"
    by (simp add: remove_contact_def)
next
  fix c
  assume c: "c \<in> set (contacts db)" and own: "c_id c = contact_id \<and> c_user_id c = Some (u_id usr)"
  have "find (id_and_owner contact_id usr) (contacts db) = Some c"
    using find_own [OF pk c] own by (simp add: id_and_owner_def)
  then show "remove_contact contact_id usr db = (Some c, db\<lparr>contacts := remove1 c (contacts db)\<rparr>)"
    by (simp add: remove_contact_def filter_other_ids [OF pk c])
  have d: "distinct (contacts db)" using pk by (simp add: distinct_map)
  then show "set (remove1 c (contacts db)) = set (contacts db) - {c}" by simp
  show "length (remove1 c (contacts db)) + 1 = length (contacts db)"
    using c by (simp add: length_remove1) (cases "contacts db"; simp)
qed

theorem remove_contact_frame_witness:
  "remove_contact 7 ann db_two = (None, db_two)
   \<and> remove_contact 1 ann db_two = (Some lee, \<lparr>contacts = [ray], users = [ann, bob], contacts_id_seq = 2\<rparr>)"
proof -
  have pk: "distinct (map c_id (contacts db_two))" by (simp add: db_two_def lee_def ray_def)
  have a: "\<forall>c \<in> set (contacts db_two). c_id c = 7 \<longrightarrow> c_user_id c \<noteq> Some (u_id ann)"
    by (simp add: db_two_def lee_def ray_def)
  have b: "lee \<in> set (contacts db_two)" "c_id lee = 1 \<and> c_user_id lee = Some (u_id ann)"
    by (simp_all add: db_two_def lee_def ann_def)
  have r: "db_two\<lparr>contacts := remove1 lee (contacts db_two)\<rparr>
             = \<lparr>contacts = [ray], users = [ann, bob], contacts_id_seq = 2\<rparr>"
    by (simp add: db_two_def)
  from remove_contact_frame [OF pk, of 7 ann] a
  have one: "remove_contact 7 ann db_two = (None, db_two)" by blast
  from remove_contact_frame [OF pk, of 1 ann] b
  have two: "remove_contact 1 ann db_two = (Some lee, db_two\<lparr>contacts := remove1 lee (contacts db_two)\<rparr>)"
    by blast
  show ?thesis using one two by (simp add: r)
qed

section \<open>Updating a contact\<close>

lemma add_days_numeral: "add_days d (numeral k) = add_days (next_day d) (pred_numeral k)"
  by (simp add: numeral_eq_Suc)






section \<open>Users and tokens\<close>

lemma get_user_by_email_update_token:
  assumes "get_user_by_email email db = Some usr"
  shows "get_user_by_email email (update_token usr token db)
           = Some (usr\<lparr>u_refresh_token := token\<rparr>)"
proof -
  let ?f = "\<lambda>r. if u_id r = u_id usr then r\<lparr>u_refresh_token := token\<rparr> else r"
  have "find (\<lambda>u. u_email u = email) (map ?f (users db))
          = map_option ?f (find (\<lambda>u. u_email u = email) (users db))"
    by (rule find_map_preserved) simp
  then show ?thesis using assms by (simp add: get_user_by_email_def update_token_def)
qed

text \<open>
  Claim C5. When the presented refresh token decodes to the email of a user whose stored
  refresh token is a different value, \<open>refresh_token\<close> answers 401 and the stored token
  of that user becomes \<open>None\<close>; from then on every token that decodes to this email, the
  previously stored one among them, is answered with 401 as well.
\<close>

theorem refresh_token_mismatch:
  assumes dec: "decode_refresh_token svc token = Inr email"
    and usr: "get_user_by_email email db = Some usr"
    and ne: "u_refresh_token usr \<noteq> Some token"
  shows "refresh_token svc token db
           = (Inl (HTTPException 401 ''Invalid refresh token''), update_token usr None db)
       \<and> get_user_by_email email (update_token usr None db)
           = Some (usr\<lparr>u_refresh_token := None\<rparr>)
       \<and> (\<forall>old. decode_refresh_token svc old = Inr email \<longrightarrow>
             fst (refresh_token svc old (update_token usr None db))
               = Inl (HTTPException 401 ''Invalid refresh token''))"
proof -
  have cleared: "get_user_by_email email (update_token usr None db)
                   = Some (usr\<lparr>u_refresh_token := None\<rparr>)"
    using get_user_by_email_update_token [OF usr] .
  have first: "refresh_token svc token db
                 = (Inl (HTTPException 401 ''Invalid refresh token''), update_token usr None db)"
    using dec usr ne by (simp add: refresh_token_def)
  have again: "fst (refresh_token svc old (update_token usr None db))
                 = Inl (HTTPException 401 ''Invalid refresh token'')"
    if "decode_refresh_token svc old = Inr email" for old
    using that cleared by (simp add: refresh_token_def)
  show ?thesis using first cleared again by blast
qed

theorem refresh_token_mismatch_witness:
  "u_refresh_token ann = Some ''refresh-1''
   \<and> fst (refresh_token plain_service ''refresh-0'' db_users)
       = Inl (HTTPException 401 ''Invalid refresh token'')
   \<and> map_option u_refresh_token
        (get_user_by_email ''ann@example.com'' (snd (refresh_token plain_service ''refresh-0'' db_users)))
       = Some None
   \<and> fst (refresh_token plain_service ''refresh-1''
            (snd (refresh_token plain_service ''refresh-0'' db_users)))
       = Inl (HTTPException 401 ''Invalid refresh token'')"
proof -
  have dec: "decode_refresh_token plain_service ''refresh-0'' = Inr ''ann@example.com''"
    by (simp add: plain_service_def)
  have old: "decode_refresh_token plain_service ''refresh-1'' = Inr ''ann@example.com''"
    by (simp add: plain_service_def)
  have usr: "get_user_by_email ''ann@example.com'' db_users = Some ann"
    by (simp add: get_user_by_email_def db_users_def ann_def)
  have ne: "u_refresh_token ann \<noteq> Some ''refresh-0''" by (simp add: ann_def)
  have stored: "u_refresh_token ann = Some ''refresh-1''" by (simp add: ann_def)
  show ?thesis
    using refresh_token_mismatch [OF dec usr ne] old stored by simp
qed



text \<open>
  Claim C6 at an email no account has: the claim promises a message response;
  \<open>request_email\<close> reads \<open>user.confirmed\<close> on \<open>None\<close> and raises \<open>AttributeError\<close>. No
  task is enqueued. For an account that exists, \<open>request_email_known_account\<close> below
  is what the claim says.
\<close>

theorem request_email_unknown_account:
  "get_user_by_email ''eve@example.com'' db_users = None
   \<and> request_email ''eve@example.com'' ''http://localhost:8000/'' [] db_users
       = (Inl AttributeError, [])"
  by (simp add: request_email_def get_user_by_email_def db_users_def ann_def bob_def)

lemma request_email_known_account:
  assumes "get_user_by_email email db = Some usr"
  shows "request_email email base_url tasks db
           = (if u_confirmed usr then (Inr ''Your email is already confirmed'', tasks)
              else (Inr ''Check your email for confirmation.'',
                    tasks @ [Send_email (u_email usr) (u_username usr) base_url]))"
  using assms by (simp add: request_email_def)

text \<open>
  Claim C4 at a request that carries no credentials: \<open>read_contact\<close> and \<open>read_contacts\<close>
  answer 401 before any repository call, while \<open>search_contacts_api\<close> and
  \<open>get_upcoming_birthdays\<close>, which declare no \<open>current_user\<close> dependency, return the
  contact of user 1.
\<close>

theorem contact_data_without_credentials:
  "read_contact plain_service None 1 db_lee = Inl (HTTPException 401 ''Not authenticated'')
   \<and> read_contacts plain_service None 0 100 db_lee = Inl (HTTPException 401 ''Not authenticated'')
   \<and> search_contacts_api [] [] [] db_lee = [lee]
   \<and> get_upcoming_birthdays \<lparr>year = 2024, month = 1, day = 22\<rparr> db_lee = Inr [lee]"
  by (simp add: read_contact_def read_contacts_def plain_service_def search_contacts_api_def
      search_contacts_def ilike_def lower_def joins_a_user_def get_upcoming_birthdays_def
      get_contacts_upcoming_birthdays_def date_plus_timedelta_def add_days_numeral
      next_day_def days_in_month_def leap_year_def db_lee_def lee_def ann_def bob_def)

text \<open>
  Claim C3 on 28 January 2024, for a contact born on 29 January: the birthday is in
  today's month and its day lies in \<open>[28, 35]\<close>, so the claim (\<open>spec_upcoming\<close>) lists the
  contact; \<open>get_contacts_upcoming_birthdays\<close> compares the day with the day of
  \<open>today + 7 days\<close>, which is 4 (of February), and returns nothing.
\<close>

theorem upcoming_birthdays_month_end:
  "get_contacts_upcoming_birthdays \<lparr>year = 2024, month = 1, day = 28\<rparr> db_lee = Inr []
   \<and> spec_upcoming \<lparr>year = 2024, month = 1, day = 28\<rparr> db_lee = [lee]
   \<and> c_birthday lee = Some \<lparr>year = 1990, month = 1, day = 29\<rparr>"
  by (simp add: get_contacts_upcoming_birthdays_def spec_upcoming_def date_plus_timedelta_def
      add_days_numeral next_day_def days_in_month_def leap_year_def db_lee_def lee_def)

section \<open>Birthdays within the month\<close>

lemma add_days_within_month:
  "day d + n \<le> days_in_month (year d) (month d) \<Longrightarrow> add_days d n = d\<lparr>day := day d + n\<rparr>"
proof (induction n arbitrary: d)
  case 0
  then show ?case by simp
next
  case (Suc n)
  then have "next_day d = d\<lparr>day := day d + 1\<rparr>" by (simp add: next_day_def)
  with Suc show ?case by simp
qed

text \<open>
  While \<open>today + 7 days\<close> stays in today's month, the query returns the contacts of the
  spec's window (those that join a user).
\<close>

lemma upcoming_birthdays_within_month:
  assumes "day today + 7 \<le> days_in_month (year today) (month today)" "year today \<le> 9999"
  shows "get_contacts_upcoming_birthdays today db
           = Inr (filter (joins_a_user db) (spec_upcoming today db))"
proof -
  have "date_plus_timedelta today 7 = Inr (today\<lparr>day := day today + 7\<rparr>)"
    using assms by (simp add: date_plus_timedelta_def add_days_within_month)
  then show ?thesis
    by (auto simp: get_contacts_upcoming_birthdays_def spec_upcoming_def
        intro!: filter_cong split: option.splits)
qed

section \<open>Searching: \<open>ILIKE\<close> against substring containment\<close>

lemma lower_code:
  "(of_char (lower ch) :: nat)
     = (if 65 \<le> (of_char ch :: nat) \<and> (of_char ch :: nat) \<le> 90 then of_char ch + 32
        else of_char ch)"
  by (simp add: lower_def Let_def)

lemma lower_not_wildcard:
  "lower ch = CHR ''%'' \<longleftrightarrow> ch = CHR ''%''"
  "lower ch = CHR ''_'' \<longleftrightarrow> ch = CHR ''_''"
  "lower ch = CHR 0x5C \<longleftrightarrow> ch = CHR 0x5C"
proof -
  have eq: "a = b \<longleftrightarrow> (of_char a :: nat) = of_char b" for a b :: char
    by auto
  show "lower ch = CHR ''%'' \<longleftrightarrow> ch = CHR ''%''"
    unfolding eq [of "lower ch"] eq [of ch] lower_code by (simp split: if_splits)
  show "lower ch = CHR ''_'' \<longleftrightarrow> ch = CHR ''_''"
    unfolding eq [of "lower ch"] eq [of ch] lower_code by (simp split: if_splits)
  show "lower ch = CHR 0x5C \<longleftrightarrow> ch = CHR 0x5C"
    unfolding eq [of "lower ch"] eq [of ch] lower_code by (simp split: if_splits)
qed

lemma like_match_percent:
  "like_match (CHR ''%'' # ps) s \<longleftrightarrow> (\<exists>s1 s2. s = s1 @ s2 \<and> like_match ps s2)"
proof (induction s)
  case Nil
  then show ?case by simp
next
  case (Cons ch cs)
  show ?case
  proof
    assume "like_match (CHR ''%'' # ps) (ch # cs)"
    then consider "like_match ps (ch # cs)" | "like_match (CHR ''%'' # ps) cs" by auto
    then show "\<exists>s1 s2. ch # cs = s1 @ s2 \<and> like_match ps s2"
    proof cases
      case 1
      then have "ch # cs = [] @ (ch # cs) \<and> like_match ps (ch # cs)" by simp
      then show ?thesis by blast
    next
      case 2
      then obtain s1 s2 where "cs = s1 @ s2" "like_match ps s2" using Cons.IH by blast
      then have "ch # cs = (ch # s1) @ s2 \<and> like_match ps s2" by simp
      then show ?thesis by blast
    qed
  next
    assume "\<exists>s1 s2. ch # cs = s1 @ s2 \<and> like_match ps s2"
    then obtain s1 s2 where eq: "ch # cs = s1 @ s2" and m: "like_match ps s2" by blast
    show "like_match (CHR ''%'' # ps) (ch # cs)"
    proof (cases s1)
      case Nil
      with eq m have "like_match ps (ch # cs)" by simp
      then show ?thesis by simp
    next
      case (Cons a s1')
      with eq have "cs = s1' @ s2" by simp
      with m Cons.IH have "like_match (CHR ''%'' # ps) cs" by blast
      then show ?thesis by simp
    qed
  qed
qed

lemma like_match_literal:
  "wildcard_free q \<Longrightarrow> like_match (q @ ps) s \<longleftrightarrow> (\<exists>s2. s = q @ s2 \<and> like_match ps s2)"
proof (induction q arbitrary: s)
  case Nil
  then show ?case by simp
next
  case (Cons p q)
  then have p: "p \<noteq> CHR ''%''" "p \<noteq> CHR ''_''" "p \<noteq> CHR 0x5C" and q: "wildcard_free q"
    by (auto simp: wildcard_free_def)
  show ?case
  proof (cases s)
    case Nil
    with p show ?thesis by simp
  next
    case (Cons ch cs)
    with p Cons.IH [OF q, of cs] show ?thesis by auto
  qed
qed

lemma like_match_contains:
  assumes "wildcard_free q"
  shows "like_match (CHR ''%'' # q @ [CHR ''%'']) s \<longleftrightarrow> sublist q s"
proof -
  have any: "like_match [CHR ''%''] t" for t
    by (simp add: like_match_percent)
  have "like_match (CHR ''%'' # q @ [CHR ''%'']) s
          \<longleftrightarrow> (\<exists>s1 s2. s = s1 @ s2 \<and> like_match (q @ [CHR ''%'']) s2)"
    by (rule like_match_percent)
  also have "\<dots> \<longleftrightarrow> (\<exists>s1 s2. s = s1 @ s2 \<and> (\<exists>s3. s2 = q @ s3))"
    by (simp add: like_match_literal [OF assms] any)
  also have "\<dots> \<longleftrightarrow> sublist q s"
    by (auto simp: sublist_def)
  finally show ?thesis .
qed

lemma wildcard_not_lower:
  "CHR ''%'' = lower ch \<longleftrightarrow> ch = CHR ''%''"
  "CHR ''_'' = lower ch \<longleftrightarrow> ch = CHR ''_''"
  "CHR 0x5C = lower ch \<longleftrightarrow> ch = CHR 0x5C"
  using lower_not_wildcard [of ch] by (simp_all add: eq_commute)

lemma wildcard_free_lower: "wildcard_free q \<Longrightarrow> wildcard_free (map lower q)"
  by (induction q) (auto simp: wildcard_free_def wildcard_not_lower)

lemma lower_same_letter: "lower a = lower b \<longleftrightarrow> same_letter a b"
proof -
  have eq: "x = y \<longleftrightarrow> (of_char x :: nat) = of_char y" for x y :: char
    by auto
  show ?thesis
    unfolding eq [of "lower a"] eq [of a] lower_code same_letter_def capital_def by auto
qed

lemma starts_with_ci_prefix: "starts_with_ci q s \<longleftrightarrow> prefix (map lower q) (map lower s)"
  by (induction q s rule: starts_with_ci.induct) (simp_all add: lower_same_letter)

lemma has_substring_ci_sublist:
  "has_substring_ci q s \<longleftrightarrow> sublist (map lower q) (map lower s)"
  by (induction s) (simp_all add: sublist_Cons_right starts_with_ci_prefix)

lemma ilike_contains:
  assumes "wildcard_free q"
  shows "ilike col (CHR ''%'' # q @ ''%'') = contains_ci col q"
proof (cases col)
  case None
  then show ?thesis by (simp add: ilike_def contains_ci_def)
next
  case (Some s)
  have pc: "lower CHR ''%'' = CHR ''%''" by (simp add: lower_not_wildcard)
  show ?thesis
    using like_match_contains [OF wildcard_free_lower [OF assms], of "map lower s"]
    by (simp add: Some ilike_def contains_ci_def has_substring_ci_sublist pc)
qed


text \<open>
  Claim C2, as stated, fails for a query that holds a \<open>LIKE\<close> wildcard, on ASCII text:
  the first name \<open>Ann\<close> does not contain the query \<open>_\<close>, yet the pattern \<open>%_%\<close> matches
  every non-empty first name and the contact is returned.
\<close>

theorem search_contacts_wildcard:
  "ascii_contacts db_lee \<and> ascii_text ''_''
   \<and> search_contacts db_lee ''_'' [] [] = [lee]
   \<and> c_first_name lee = Some ''Ann''
   \<and> spec_search db_lee ''_'' [] [] = []"
proof -
  have ascii: "ascii_contacts db_lee \<and> ascii_text ''_''"
    by (simp add: ascii_contacts_def ascii_column_def ascii_text_def db_lee_def lee_def)
  have code: "search_contacts db_lee ''_'' [] [] = [lee]"
    by (simp add: search_contacts_def db_lee_def lee_def ilike_def lower_def joins_a_user_def
        ann_def bob_def)
  have name: "c_first_name lee = Some ''Ann''" by (simp add: lee_def)
  have spec: "spec_search db_lee ''_'' [] [] = []" by code_simp
  show ?thesis using ascii code name spec by simp
qed

text \<open>
  Claim C2, amended. On a database whose first names, last names and emails are ASCII
  text, and for query strings that are ASCII text without NUL and without the characters
  \<open>%\<close>, \<open>_\<close> and backslash, \<open>search_contacts\<close> returns exactly the contacts, of whatever
  user, whose first name, last name and email each case-insensitively contain the
  corresponding query (a NULL column contains nothing) and whose \<open>user_id\<close> is the id of
  a row of \<open>users\<close>. With three empty queries these are the contacts with an owner in
  \<open>users\<close> and three non-NULL columns: every contact, when all contacts are such.
\<close>

theorem search_contacts_substring:
  assumes "ascii_contacts db"
  shows
  "(ascii_text first_name \<and> ascii_text last_name \<and> ascii_text email
      \<and> wildcard_free first_name \<and> wildcard_free last_name \<and> wildcard_free email \<longrightarrow>
      search_contacts db first_name last_name email
        = filter (joins_a_user db) (spec_search db first_name last_name email))
   \<and> search_contacts db [] [] []
       = filter (\<lambda>c. c_first_name c \<noteq> None \<and> c_last_name c \<noteq> None \<and> c_email c \<noteq> None
                      \<and> joins_a_user db c) (contacts db)
   \<and> ((\<forall>c \<in> set (contacts db). c_first_name c \<noteq> None \<and> c_last_name c \<noteq> None
            \<and> c_email c \<noteq> None \<and> joins_a_user db c)
        \<longrightarrow> search_contacts db [] [] [] = contacts db)"
proof -
  have general: "search_contacts db f l e = filter (joins_a_user db) (spec_search db f l e)"
    if "wildcard_free f" "wildcard_free l" "wildcard_free e" for f l e
    using that by (simp add: search_contacts_def spec_search_def ilike_contains conj_ac)
  have no_chars: "wildcard_free []" by (simp add: wildcard_free_def)
  have empty_query: "contains_ci col [] \<longleftrightarrow> col \<noteq> None" for col
  proof (cases col)
    case None
    then show ?thesis by (simp add: contains_ci_def)
  next
    case (Some s)
    have "has_substring_ci [] s" by (cases s) simp_all
    with Some show ?thesis by (simp add: contains_ci_def)
  qed
  have all: "search_contacts db [] [] []
       = filter (\<lambda>c. c_first_name c \<noteq> None \<and> c_last_name c \<noteq> None \<and> c_email c \<noteq> None
                      \<and> joins_a_user db c) (contacts db)"
  proof -
    have "search_contacts db [] [] [] = filter (joins_a_user db) (spec_search db [] [] [])"
      by (rule general [OF no_chars no_chars no_chars])
    also have "\<dots> = filter (\<lambda>c. c_first_name c \<noteq> None \<and> c_last_name c \<noteq> None
                      \<and> c_email c \<noteq> None \<and> joins_a_user db c) (contacts db)"
      unfolding spec_search_def filter_filter empty_query
      by (intro filter_cong) auto
    finally show ?thesis .
  qed
  have every: "search_contacts db [] [] [] = contacts db"
    if "\<forall>c \<in> set (contacts db). c_first_name c \<noteq> None \<and> c_last_name c \<noteq> None
            \<and> c_email c \<noteq> None \<and> joins_a_user db c"
    unfolding all using that by (intro filter_True) simp
  show ?thesis using general all every by blast
qed

theorem search_contacts_substring_witness:
  "search_contacts db_two ''an'' ''LEE'' ''X.COM'' = [lee]
   \<and> search_contacts db_two [] ''ray'' [] = [ray]
   \<and> search_contacts db_two ''N'' ''e'' ''@'' = [lee]
   \<and> search_contacts db_two [] [] [] = [lee, ray]"
proof -
  have db: "ascii_contacts db_two"
    by (simp add: ascii_contacts_def ascii_column_def ascii_text_def db_two_def lee_def ray_def)
  have q1: "ascii_text ''an'' \<and> ascii_text ''LEE'' \<and> ascii_text ''X.COM''
          \<and> wildcard_free ''an'' \<and> wildcard_free ''LEE'' \<and> wildcard_free ''X.COM''"
    by (simp add: ascii_text_def wildcard_free_def)
  have q2: "ascii_text [] \<and> ascii_text ''ray'' \<and> ascii_text []
          \<and> wildcard_free [] \<and> wildcard_free ''ray'' \<and> wildcard_free []"
    by (simp add: ascii_text_def wildcard_free_def)
  have q3: "ascii_text ''N'' \<and> ascii_text ''e'' \<and> ascii_text ''@''
          \<and> wildcard_free ''N'' \<and> wildcard_free ''e'' \<and> wildcard_free ''@''"
    by (simp add: ascii_text_def wildcard_free_def)
  have s1: "filter (joins_a_user db_two) (spec_search db_two ''an'' ''LEE'' ''X.COM'') = [lee]"
    by code_simp
  have s2: "filter (joins_a_user db_two) (spec_search db_two [] ''ray'' []) = [ray]"
    by code_simp
  have s3: "filter (joins_a_user db_two) (spec_search db_two ''N'' ''e'' ''@'') = [lee]"
    by code_simp
  have inv: "\<forall>c \<in> set (contacts db_two). c_first_name c \<noteq> None \<and> c_last_name c \<noteq> None
            \<and> c_email c \<noteq> None \<and> joins_a_user db_two c"
    by (simp add: db_two_def lee_def ray_def joins_a_user_def ann_def bob_def)
  have rows: "contacts db_two = [lee, ray]" by (simp add: db_two_def)
  show ?thesis
    using search_contacts_substring [OF db, of "''an''" "''LEE''" "''X.COM''"]
      search_contacts_substring [OF db, of "[]" "''ray''" "[]"]
      search_contacts_substring [OF db, of "''N''" "''e''" "''@''"]
      q1 q2 q3 s1 s2 s3 inv rows
    by simp
qed

end
